theory Spec2Isabelle
  imports Main "HOL-Library.Sublist"
begin

section \<open>The request admission pipeline of keycloak-proxy\<close>

text \<open>
  A shallow embedding of the gin middleware chain of \<^verbatim>\<open>middleware.go\<close>
  (\<^verbatim>\<open>entryPointHandler\<close>, \<^verbatim>\<open>authenticationHandler\<close>, \<^verbatim>\<open>admissionHandler\<close>,
  \<^verbatim>\<open>upstreamHeadersHandler\<close>) and of \<^verbatim>\<open>extractIdentity\<close> of the user context.
  Handlers are functions on the request context; the calls a handler makes on the proxy
  (forbid, redirect, cookie writes, store updates) are returned as a trace, in the order
  the handler makes them. Errors and panics are values.
\<close>

subsection \<open>Go library functions\<close>

text \<open>\<^verbatim>\<open>strings.HasPrefix(s, prefix)\<close>.\<close>

fun HasPrefix :: "string \<Rightarrow> string \<Rightarrow> bool" where
  "HasPrefix s [] = True"
| "HasPrefix [] (c # p) = False"
| "HasPrefix (x # s) (c # p) = (x = c \<and> HasPrefix s p)"

subsection \<open>Errors\<close>

text \<open>
  The error values the handlers compare against, any other error (with its message), and
  a Go panic (a failed type assertion, or the explicit \<^verbatim>\<open>panic\<close> of the admission handler).
\<close>

datatype error =
    ErrNoTokenAudience
  | ErrAccessTokenExpired
  | ErrRefreshTokenExpired
  | ErrOther string
  | Panic string

subsection \<open>Claims and tokens\<close>

text \<open>
  \<^verbatim>\<open>jose.Claims\<close> is \<^verbatim>\<open>map[string]interface{}\<close> holding decoded JSON. A JSON object is an
  association list (looked up with \<^const>\<open>map_of\<close>): the order of the list stands for the
  order in which Go happens to iterate the map. Numbers are the integral seconds the
  time claims carry.
\<close>

datatype claim =
    CString string
  | CNumber int
  | CBool bool
  | CNull
  | CList "claim list"
  | CObject "(string \<times> claim) list"

type_synonym Claims = "(string \<times> claim) list"

text \<open>
  \<^verbatim>\<open>jose.JWT\<close>: the encoded form returned by \<^verbatim>\<open>Encode()\<close>, and the payload that
  \<^verbatim>\<open>Claims()\<close> decodes (\<open>None\<close> when the payload does not decode, where \<^verbatim>\<open>Claims()\<close>
  returns an error).
\<close>

datatype JWT = JWT (Encode: string) (Payload: "Claims option")

definition TokenClaims :: "JWT \<Rightarrow> error + Claims" where
  "TokenClaims t =
     (case Payload t of
        None \<Rightarrow> Inl (ErrOther ''malformed JWS, unable to decode payload'')
      | Some c \<Rightarrow> Inr c)"

text \<open>
  \<^verbatim>\<open>Claims.StringClaim(name)\<close> of the jose library, with its three results
  \<^verbatim>\<open>(value, found, err)\<close>: an absent claim is \<^verbatim>\<open>("", false, nil)\<close>, a claim that is not a
  string is \<^verbatim>\<open>("", false, err)\<close>.
\<close>

definition StringClaim :: "Claims \<Rightarrow> string \<Rightarrow> string \<times> bool \<times> error option" where
  "StringClaim c n =
     (case map_of c n of
        None \<Rightarrow> ('''', False, None)
      | Some (CString v) \<Rightarrow> (v, True, None)
      | Some _ \<Rightarrow> ('''', False, Some (ErrOther ''unable to parse claim as string'')))"

subsection \<open>Resources, users, configuration\<close>

record Resource =
  URL :: string
  Methods :: "string list"
  WhiteListed :: bool
  Roles :: "string list"

text \<open>The \<^verbatim>\<open>userContext\<close> struct; \<^verbatim>\<open>time.Time\<close> is seconds since the Unix epoch.\<close>

record userContext =
  id' :: string
  email :: string
  name :: string
  preferredName :: string
  expiresAt :: int
  roles :: "string list"
  audience :: string
  token :: JWT
  claims :: Claims
  bearerToken :: bool

definition isAudience :: "userContext \<Rightarrow> string \<Rightarrow> bool" where
  "isAudience r aud = (if audience r = aud then True else False)"

definition isExpired :: "userContext \<Rightarrow> int \<Rightarrow> bool" where
  "isExpired r now = (expiresAt r < now)"

definition isBearer :: "userContext \<Rightarrow> bool" where
  "isBearer r = bearerToken r"

text \<open>
  A compiled regular expression (\<^verbatim>\<open>*regexp.Regexp\<close>) is its syntax tree: literals,
  concatenation, alternation, repetition, the empty match and the two text anchors
  \<^verbatim>\<open>^\<close> and \<^verbatim>\<open>$\<close>.
\<close>

datatype Regexp =
    Lit char
  | EmptyMatch
  | BeginText
  | EndText
  | Cat Regexp Regexp
  | Alt Regexp Regexp
  | Star Regexp

text \<open>
  The fields of \<^verbatim>\<open>Config\<close> that the handlers read. \<^verbatim>\<open>MatchClaims\<close> holds each pattern as
  the syntax tree \<^verbatim>\<open>regexp.MustCompile\<close> parses it to; \<^verbatim>\<open>Headers\<close> and \<^verbatim>\<open>MatchClaims\<close> are
  Go maps, listed in the order they are iterated.
\<close>

record Config =
  ClientID :: string
  SkipClientID :: bool
  SkipTokenVerification :: bool
  EnableRefreshTokens :: bool
  IdleDuration :: int
  Resources :: "Resource list"
  MatchClaims :: "(string \<times> Regexp) list"
  Headers :: "(string \<times> string) list"

text \<open>
  The request: method, URL path, header (\<^verbatim>\<open>http.Header\<close>, a map from canonical names to
  the list of values; no entry is the empty list), remote address and host.
\<close>

type_synonym Header = "string \<Rightarrow> string list"

record Request =
  Method :: string
  Path :: string
  ReqHeader :: Header
  RemoteAddr :: string
  Host :: string

text \<open>
  The gin context's key/value store, at the two keys the handlers use:
  \<^verbatim>\<open>cxEnforce\<close> (the resource to enforce) and \<^verbatim>\<open>userContextName\<close> (the identity).
\<close>

record Context =
  Enforcing :: "Resource option"
  userCtx :: "userContext option"

definition newContext :: Context where
  "newContext = \<lparr>Enforcing = None, userCtx = None\<rparr>"

subsection \<open>entryPointHandler\<close>

text \<open>
  Modelled from the spec: \<^verbatim>\<open>containedIn\<close> (the repository's utilities, not under src/),
  "contains \<^verbatim>\<open>"ANY"\<close> OR contains the request method": membership of a string in a list.
\<close>

fun containedIn :: "string \<Rightarrow> string list \<Rightarrow> bool" where
  "containedIn v [] = False"
| "containedIn v (x # xs) = (if x = v then True else containedIn v xs)"

text \<open>
  Modelled from the spec: the constant \<^verbatim>\<open>oauthURL\<close> (not under src/), "the reserved OAuth
  sub-tree (default \<^verbatim>\<open>/oauth\<close>)".
\<close>

definition oauthURL :: string where
  "oauthURL = ''/oauth''"

text \<open>
  The \<^verbatim>\<open>for _, resource := range r.config.Resources\<close> loop of the handler: the value is the
  resource stored under \<^verbatim>\<open>cxEnforce\<close>, if any. Both \<^verbatim>\<open>break\<close>s end the loop.
\<close>

fun entryPointLoop :: "string \<Rightarrow> string \<Rightarrow> Resource list \<Rightarrow> Resource option" where
  "entryPointLoop path method [] = None"
| "entryPointLoop path method (resource # rest) =
     (if HasPrefix path (URL resource) then
        (if WhiteListed resource then None
         else if containedIn ''ANY'' (Methods resource) \<or> containedIn method (Methods resource)
              then Some resource
              else None)
      else entryPointLoop path method rest)"

definition entryPointHandler :: "Config \<Rightarrow> Request \<Rightarrow> Context \<Rightarrow> Context" where
  "entryPointHandler cfg req cx =
     (if HasPrefix (Path req) oauthURL then cx
      else (case entryPointLoop (Path req) (Method req) (Resources cfg) of
              None \<Rightarrow> cx
            | Some resource \<Rightarrow> cx\<lparr>Enforcing := Some resource\<rparr>))"

subsection \<open>Regular expression matching\<close>

text \<open>
  \<open>ends re s i\<close> lists the positions at which a match of \<open>re\<close> that starts at position
  \<open>i\<close> of the text \<open>s\<close> can end. The anchors look at the position within the whole text.
  A repetition is the closure of one more iteration, which is complete after
  \<open>length s + 1\<close> rounds as there are no more positions than that.
\<close>

primrec ends :: "Regexp \<Rightarrow> string \<Rightarrow> nat \<Rightarrow> nat list" where
  "ends (Lit c) s i = (if i < length s \<and> s ! i = c then [Suc i] else [])"
| "ends EmptyMatch s i = [i]"
| "ends BeginText s i = (if i = 0 then [i] else [])"
| "ends EndText s i = (if i = length s then [i] else [])"
| "ends (Cat a b) s i = concat (map (ends b s) (ends a s i))"
| "ends (Alt a b) s i = ends a s i @ ends b s i"
| "ends (Star a) s i =
     ((\<lambda>X. remdups (X @ concat (map (ends a s) X))) ^^ Suc (length s)) [i]"

text \<open>
  \<^verbatim>\<open>(*Regexp).MatchString(s)\<close>: "reports whether the string s contains any match of the
  regular expression": a match may start and end anywhere in the text.
\<close>

definition MatchString :: "Regexp \<Rightarrow> string \<Rightarrow> bool" where
  "MatchString re s = list_ex (\<lambda>i. ends re s i \<noteq> []) [0..<Suc (length s)]"

text \<open>
  The spec's reading of a claim match, "MUST match the regex fully": the match starts at
  the first position and ends at the last.
\<close>

definition matchesFully :: "Regexp \<Rightarrow> string \<Rightarrow> bool" where
  "matchesFully re s = (length s \<in> set (ends re s 0))"

subsection \<open>The calls a handler makes\<close>

text \<open>
  The two operations of the refresh token store, and the calls on the proxy that the
  handlers make: \<^verbatim>\<open>r.accessForbidden(cx)\<close>, \<^verbatim>\<open>r.redirectToAuthorization(cx)\<close>,
  \<^verbatim>\<open>r.clearAllCookies(cx)\<close>, the two cookie writes with value and duration, and the
  \<^verbatim>\<open>go func\<close> statement with the store operations its body performs, in order.
\<close>

datatype storeCall =
    DeleteRefreshToken JWT
  | StoreRefreshToken JWT string

datatype call =
    AccessForbidden
  | RedirectToAuthorization
  | ClearAllCookies
  | DropAccessTokenCookie string int
  | DropRefreshTokenCookie string int
  | GoFunc "storeCall list"

text \<open>
  Modelled from the spec: \<^verbatim>\<open>accessForbidden\<close> (the repository's handlers, not under src/),
  "Admission failure (role/claim/audience): 403", as \<^verbatim>\<open>TestAccessForbidden\<close> asserts. The
  status that \<^verbatim>\<open>redirectToAuthorization\<close> writes depends on the configuration and is not
  modelled.
\<close>

fun statusOf :: "call \<Rightarrow> nat option" where
  "statusOf AccessForbidden = Some 403"
| "statusOf _ = None"

text \<open>
  Modelled from the spec: \<^verbatim>\<open>accessForbidden\<close> and \<^verbatim>\<open>redirectToAuthorization\<close> (not under
  src/) abort the gin context, "each stage either annotates the context and continues, or
  terminates the request with a redirect / 401 / 403" (\<^verbatim>\<open>TestRedirectURL\<close> asserts
  \<^verbatim>\<open>IsAborted\<close>): no later handler of the chain runs.
\<close>

fun aborts :: "call list \<Rightarrow> bool" where
  "aborts [] = False"
| "aborts (AccessForbidden # cs) = True"
| "aborts (RedirectToAuthorization # cs) = True"
| "aborts (c # cs) = aborts cs"

subsection \<open>authenticationHandler\<close>

text \<open>
  What the collaborators of the handler answer for this request: \<^verbatim>\<open>r.getIdentity(cx)\<close>,
  the clock, \<^verbatim>\<open>verifyToken(r.client, token)\<close> (\<open>None\<close> is a nil error),
  \<^verbatim>\<open>r.retrieveRefreshToken(cx, user)\<close>, \<^verbatim>\<open>getRefreshedToken(r.client, rToken)\<close> with the
  new token and its expiry, and \<^verbatim>\<open>r.useStore()\<close>.
\<close>

record Env =
  getIdentity :: "error + userContext"
  now :: int
  verifyToken :: "JWT \<Rightarrow> error option"
  retrieveRefreshToken :: "userContext \<Rightarrow> error + string"
  getRefreshedToken :: "string \<Rightarrow> error + JWT \<times> int"
  useStore :: bool

text \<open>
  The part of the handler after a refresh token was found: the refresh at the IdP, and on
  success the cookie write, the store update or refresh cookie, and the new token in the
  user context. The goroutine receives \<^verbatim>\<open>user.token\<close> and \<^verbatim>\<open>rToken\<close> as its arguments
  \<^verbatim>\<open>t\<close> and \<^verbatim>\<open>rt\<close>, evaluated at the \<^verbatim>\<open>go\<close> statement, before \<^verbatim>\<open>user.token = token\<close>.
  The user in the context is a pointer, so the context sees the new token.
\<close>

definition refreshAccessToken ::
  "Config \<Rightarrow> Env \<Rightarrow> Context \<Rightarrow> userContext \<Rightarrow> string \<Rightarrow> Context \<times> call list" where
  "refreshAccessToken cfg env cx user rToken =
     (case getRefreshedToken env rToken of
        Inl err \<Rightarrow>
          (cx, (if err = ErrRefreshTokenExpired then [ClearAllCookies] else [])
               @ [RedirectToAuthorization])
      | Inr (tok, expires) \<Rightarrow>
          (cx\<lparr>userCtx := Some (user\<lparr>token := tok\<rparr>)\<rparr>,
           [DropAccessTokenCookie (Encode tok) (IdleDuration cfg)]
           @ (if useStore env
              then [GoFunc [DeleteRefreshToken (token user),
                            StoreRefreshToken (token user) rToken]]
              else [DropRefreshTokenCookie rToken (IdleDuration cfg * 2)])))"

definition authenticationHandler :: "Config \<Rightarrow> Env \<Rightarrow> Context \<Rightarrow> Context \<times> call list" where
  "authenticationHandler cfg env cx =
     (case Enforcing cx of
        None \<Rightarrow> (cx, [])
      | Some _ \<Rightarrow>
         (case getIdentity env of
            Inl err \<Rightarrow> (cx, [RedirectToAuthorization])
          | Inr user \<Rightarrow>
             (let cx1 = cx\<lparr>userCtx := Some user\<rparr> in
              if SkipTokenVerification cfg then
                (if isExpired user (now env) then (cx1, [RedirectToAuthorization])
                 else (cx1, []))
              else
                (case verifyToken env (token user) of
                   None \<Rightarrow> (cx1, [])
                 | Some err \<Rightarrow>
                    if err \<noteq> ErrAccessTokenExpired then (cx1, [AccessForbidden])
                    else if \<not> EnableRefreshTokens cfg then (cx1, [RedirectToAuthorization])
                    else if isBearer user then (cx1, [RedirectToAuthorization])
                    else (case retrieveRefreshToken env user of
                            Inl err \<Rightarrow> (cx1, [RedirectToAuthorization])
                          | Inr rToken \<Rightarrow> refreshAccessToken cfg env cx1 user rToken)))))"

subsection \<open>admissionHandler\<close>

text \<open>
  Modelled from the spec: \<^verbatim>\<open>hasRoles\<close> (the repository's utilities, not under src/),
  "every required role MUST appear in \<^verbatim>\<open>user.roles\<close> (subset test)".
\<close>

fun hasRoles :: "string list \<Rightarrow> string list \<Rightarrow> bool" where
  "hasRoles [] issued = True"
| "hasRoles (role # required) issued =
     (if \<not> containedIn role issued then False else hasRoles required issued)"

text \<open>
  The \<^verbatim>\<open>for claimName, match := range claimMatches\<close> loop: each of its three failures calls
  \<^verbatim>\<open>accessForbidden\<close> and returns.
\<close>

fun admissionClaims :: "(string \<times> Regexp) list \<Rightarrow> userContext \<Rightarrow> call list" where
  "admissionClaims [] user = []"
| "admissionClaims ((claimName, match) # rest) user =
     (case StringClaim (claims user) claimName of
        (v, found, err) \<Rightarrow>
          if err \<noteq> None then [AccessForbidden]
          else if \<not> found then [AccessForbidden]
          else if \<not> MatchString match v then [AccessForbidden]
          else admissionClaims rest user)"

definition admissionHandler :: "Config \<Rightarrow> Context \<Rightarrow> error + call list" where
  "admissionHandler cfg cx =
     (case Enforcing cx of
        None \<Rightarrow> Inr []
      | Some resource \<Rightarrow>
         (case userCtx cx of
            None \<Rightarrow> Inl (Panic ''there is no identity in the request context'')
          | Some user \<Rightarrow>
             if ClientID cfg \<noteq> '''' \<and> \<not> isAudience user (ClientID cfg)
             then Inr [AccessForbidden]
             else if length (Roles resource) > 0 \<and> \<not> hasRoles (Roles resource) (roles user)
             then Inr [AccessForbidden]
             else Inr (admissionClaims (MatchClaims cfg) user)))"

subsection \<open>The chain\<close>

text \<open>
  The entry point "passes into the authentication, admission and proxy handlers": the
  handlers run in this order on one context, and a handler that aborts ends the chain.
  The request is proxied with the context and the calls made so far.
\<close>

datatype outcome =
    Aborted "call list"
  | Panicked error
  | Proxied Context "call list"

definition chain :: "Config \<Rightarrow> Env \<Rightarrow> Request \<Rightarrow> outcome" where
  "chain cfg env req =
     (case authenticationHandler cfg env (entryPointHandler cfg req newContext) of
        (cx, t1) \<Rightarrow>
          if aborts t1 then Aborted t1
          else (case admissionHandler cfg cx of
                  Inl e \<Rightarrow> Panicked e
                | Inr t2 \<Rightarrow> if aborts t2 then Aborted (t1 @ t2) else Proxied cx (t1 @ t2)))"

subsection \<open>Request headers\<close>

text \<open>
  \<^verbatim>\<open>textproto.CanonicalMIMEHeaderKey\<close>, which \<^verbatim>\<open>Header.Add\<close> and \<^verbatim>\<open>Header.Set\<close> apply to the
  key: a key of token characters gets an upper case first letter and an upper case
  letter after each hyphen, all other letters lower case; any other key is left as it is.
\<close>

definition lowers :: string where
  "lowers = ''abcdefghijklmnopqrstuvwxyz''"

definition uppers :: string where
  "uppers = ''ABCDEFGHIJKLMNOPQRSTUVWXYZ''"

definition validHeaderFieldByte :: "char \<Rightarrow> bool" where
  "validHeaderFieldByte c =
     (c \<in> set lowers \<or> c \<in> set uppers \<or> c \<in> set ''0123456789''
      \<or> c \<in> set ''!#$%&*+-.^_`|~'' \<or> c = CHR 0x27)"

definition toUpper :: "char \<Rightarrow> char" where
  "toUpper c = (case map_of (zip lowers uppers) c of Some u \<Rightarrow> u | None \<Rightarrow> c)"

definition toLower :: "char \<Rightarrow> char" where
  "toLower c = (case map_of (zip uppers lowers) c of Some l \<Rightarrow> l | None \<Rightarrow> c)"

fun canonicalLoop :: "bool \<Rightarrow> string \<Rightarrow> string" where
  "canonicalLoop upper [] = []"
| "canonicalLoop upper (c # cs) =
     (let c' = (if upper \<and> c \<in> set lowers then toUpper c
                else if \<not> upper \<and> c \<in> set uppers then toLower c
                else c)
      in c' # canonicalLoop (c' = CHR ''-'') cs)"

definition CanonicalMIMEHeaderKey :: "string \<Rightarrow> string" where
  "CanonicalMIMEHeaderKey s =
     (if list_all validHeaderFieldByte s then canonicalLoop True s else s)"

text \<open>\<^verbatim>\<open>Header.Add\<close> appends to the values of the key, \<^verbatim>\<open>Header.Set\<close> replaces them.\<close>

definition HeaderAdd :: "Header \<Rightarrow> string \<Rightarrow> string \<Rightarrow> Header" where
  "HeaderAdd h key v = (let k = CanonicalMIMEHeaderKey key in h(k := h k @ [v]))"

definition HeaderSet :: "Header \<Rightarrow> string \<Rightarrow> string \<Rightarrow> Header" where
  "HeaderSet h key v = (let k = CanonicalMIMEHeaderKey key in h(k := [v]))"

text \<open>\<^verbatim>\<open>strings.Join(a, sep)\<close>.\<close>

fun Join :: "string list \<Rightarrow> string \<Rightarrow> string" where
  "Join [] sep = []"
| "Join [x] sep = x"
| "Join (x # y # ys) sep = x @ sep @ Join (y # ys) sep"

text \<open>
  What the handlers take from outside \<^verbatim>\<open>middleware.go\<close> and the user context without a
  claim depending on its value: \<^verbatim>\<open>toHeader\<close> and the constant \<^verbatim>\<open>prog\<close> of the repository
  (not under src/), \<^verbatim>\<open>time.Time.String()\<close>, and how package \<^verbatim>\<open>fmt\<close> renders an operand
  that is not a string under \<^verbatim>\<open>%s\<close> and under \<^verbatim>\<open>%v\<close>.
\<close>

record Externals =
  toHeader :: "string \<Rightarrow> string"
  prog :: string
  timeString :: "int \<Rightarrow> string"
  fmtS :: "claim \<Rightarrow> string"
  fmtV :: "claim \<Rightarrow> string"

text \<open>\<^verbatim>\<open>fmt.Sprintf("%s", r)\<close> and \<^verbatim>\<open>fmt.Sprintf("%v", claim)\<close>: a string is rendered as it is.\<close>

definition SprintS :: "Externals \<Rightarrow> claim \<Rightarrow> string" where
  "SprintS ext c = (case c of CString s \<Rightarrow> s | _ \<Rightarrow> fmtS ext c)"

definition SprintV :: "Externals \<Rightarrow> claim \<Rightarrow> string" where
  "SprintV ext c = (case c of CString s \<Rightarrow> s | _ \<Rightarrow> fmtV ext c)"

subsection \<open>upstreamHeadersHandler\<close>

text \<open>
  The map \<^verbatim>\<open>customClaims\<close> built once from the \<^verbatim>\<open>custom\<close> claim names: one entry per name,
  listed in the order the handler iterates it.
\<close>

definition customClaims :: "Externals \<Rightarrow> string list \<Rightarrow> (string \<times> string) list" where
  "customClaims ext custom = map (\<lambda>x. (x, ''X-Auth-'' @ toHeader ext x)) (remdups custom)"

text \<open>The \<^verbatim>\<open>for k, v := range r.config.Headers\<close> loop.\<close>

definition addConfigHeaders :: "(string \<times> string) list \<Rightarrow> Header \<Rightarrow> Header" where
  "addConfigHeaders hs h = fold (\<lambda>(k, v) h. HeaderAdd h k v) hs h"

text \<open>The \<^verbatim>\<open>for claim, header := range customClaims\<close> loop.\<close>

definition addCustomClaims ::
  "Externals \<Rightarrow> (string \<times> string) list \<Rightarrow> userContext \<Rightarrow> Header \<Rightarrow> Header" where
  "addCustomClaims ext cs ident h =
     fold (\<lambda>(claim, header) h.
             case map_of (claims ident) claim of
               Some c \<Rightarrow> HeaderAdd h header (SprintV ext c)
             | None \<Rightarrow> h) cs h"

text \<open>The block run when the user context is found.\<close>

definition addIdentityHeaders ::
  "Externals \<Rightarrow> (string \<times> string) list \<Rightarrow> userContext \<Rightarrow> Header \<Rightarrow> Header" where
  "addIdentityHeaders ext cs ident h0 =
     (let h1 = HeaderAdd h0 ''X-Auth-Userid'' (name ident);
          h2 = HeaderAdd h1 ''X-Auth-Subject'' (id' ident);
          h3 = HeaderAdd h2 ''X-Auth-Username'' (name ident);
          h4 = HeaderAdd h3 ''X-Auth-Email'' (email ident);
          h5 = HeaderAdd h4 ''X-Auth-ExpiresIn'' (timeString ext (expiresAt ident));
          h6 = HeaderAdd h5 ''X-Auth-Token'' (Encode (token ident));
          h7 = HeaderAdd h6 ''X-Auth-Roles'' (Join (roles ident) '','');
          h8 = HeaderSet h7 ''Authorization'' (''Bearer '' @ Encode (token ident))
      in addCustomClaims ext cs ident h8)"

definition upstreamHeadersHandler ::
  "Config \<Rightarrow> Externals \<Rightarrow> string list \<Rightarrow> Context \<Rightarrow> Request \<Rightarrow> Request" where
  "upstreamHeadersHandler cfg ext custom cx req =
     (let h1 = addConfigHeaders (Headers cfg) (ReqHeader req);
          h2 = (case userCtx cx of
                  Some ident \<Rightarrow> addIdentityHeaders ext (customClaims ext custom) ident h1
                | None \<Rightarrow> h1);
          h3 = HeaderAdd h2 ''X-Forwarded-For'' (RemoteAddr req);
          h4 = HeaderSet h3 ''X-Forwarded-Agent'' (prog ext);
          h5 = HeaderSet h4 ''X-Forwarded-Host'' (Host req)
      in req\<lparr>ReqHeader := h5\<rparr>)"

subsection \<open>extractIdentity\<close>

text \<open>
  Modelled from the spec: the claim name constants (not under src/): \<^verbatim>\<open>preferred_username\<close>,
  \<^verbatim>\<open>aud\<close>, \<^verbatim>\<open>realm_access.roles\<close> and \<^verbatim>\<open>resource_access[k].roles\<close>.
\<close>

definition claimPreferredName :: string where
  "claimPreferredName = ''preferred_username''"

definition claimAudience :: string where
  "claimAudience = ''aud''"

definition claimRealmAccess :: string where
  "claimRealmAccess = ''realm_access''"

definition claimResourceAccess :: string where
  "claimResourceAccess = ''resource_access''"

definition claimResourceRoles :: string where
  "claimResourceRoles = ''roles''"

text \<open>
  \<^verbatim>\<open>oidc.IdentityFromClaims\<close> of the go-oidc library: the \<^verbatim>\<open>sub\<close> claim is required and a
  string, \<^verbatim>\<open>email\<close> is a string when present, \<^verbatim>\<open>exp\<close> is a number when present and
  otherwise leaves the zero \<^verbatim>\<open>time.Time\<close> (the first second of year 1).
\<close>

record Identity =
  ID :: string
  Email :: string
  ExpiresAt :: int

definition zeroTime :: int where
  "zeroTime = - 62135596800"

definition TimeClaim :: "Claims \<Rightarrow> string \<Rightarrow> int \<times> bool \<times> error option" where
  "TimeClaim c n =
     (case map_of c n of
        None \<Rightarrow> (zeroTime, False, None)
      | Some (CNumber v) \<Rightarrow> (v, True, None)
      | Some _ \<Rightarrow> (zeroTime, False, Some (ErrOther ''unable to parse claim as float64'')))"

definition IdentityFromClaims :: "Claims \<Rightarrow> error + Identity" where
  "IdentityFromClaims c =
     (case StringClaim c ''sub'' of
        (sub, ok, Some e) \<Rightarrow> Inl e
      | (sub, False, None) \<Rightarrow> Inl (ErrOther ''missing required claim: sub'')
      | (sub, True, None) \<Rightarrow>
         (case StringClaim c ''email'' of
            (em, found, Some e) \<Rightarrow> Inl e
          | (em, found, None) \<Rightarrow>
             (case TimeClaim c ''exp'' of
                (exp, ok, Some e) \<Rightarrow> Inl e
              | (exp, ok, None) \<Rightarrow>
                  Inr \<lparr>ID = sub, Email = em,
                       ExpiresAt = (if ok then exp else zeroTime)\<rparr>)))"

text \<open>
  The realm roles: the comma-ok assertion skips a \<^verbatim>\<open>realm_access\<close> that is not an object;
  the plain assertion \<^verbatim>\<open>roles.([]interface{})\<close> panics on a value that is not a list.
\<close>

definition realmRoles :: "Externals \<Rightarrow> Claims \<Rightarrow> string list \<Rightarrow> error + string list" where
  "realmRoles ext c list =
     (case map_of c claimRealmAccess of
        Some (CObject realm) \<Rightarrow>
          (case map_of realm claimResourceRoles of
             None \<Rightarrow> Inr list
           | Some (CList rs) \<Rightarrow> Inr (list @ map (SprintS ext) rs)
           | Some _ \<Rightarrow> Inl (Panic ''interface conversion: not []interface {}''))
      | _ \<Rightarrow> Inr list)"

text \<open>The \<^verbatim>\<open>for roleName, roleList := range accesses\<close> loop, with its two plain assertions.\<close>

fun accessRoles ::
  "Externals \<Rightarrow> (string \<times> claim) list \<Rightarrow> string list \<Rightarrow> error + string list" where
  "accessRoles ext [] list = Inr list"
| "accessRoles ext ((roleName, roleList) # rest) list =
     (case roleList of
        CObject scopes \<Rightarrow>
          (case map_of scopes claimResourceRoles of
             None \<Rightarrow> accessRoles ext rest list
           | Some (CList rs) \<Rightarrow>
               accessRoles ext rest (list @ map (\<lambda>r. roleName @ '':'' @ SprintS ext r) rs)
           | Some _ \<Rightarrow> Inl (Panic ''interface conversion: not []interface {}''))
      | _ \<Rightarrow> Inl (Panic ''interface conversion: not map[string]interface {}''))"

definition resourceRoles :: "Externals \<Rightarrow> Claims \<Rightarrow> string list \<Rightarrow> error + string list" where
  "resourceRoles ext c list =
     (case map_of c claimResourceAccess of
        Some (CObject accesses) \<Rightarrow> accessRoles ext accesses list
      | _ \<Rightarrow> Inr list)"

definition extractIdentity :: "Externals \<Rightarrow> JWT \<Rightarrow> error + userContext" where
  "extractIdentity ext tok =
     (case TokenClaims tok of
        Inl err \<Rightarrow> Inl err
      | Inr c \<Rightarrow>
         (case IdentityFromClaims c of
            Inl err \<Rightarrow> Inl err
          | Inr identity \<Rightarrow>
             (let pn = (case StringClaim c claimPreferredName of
                          (v, found, err) \<Rightarrow>
                            if err \<noteq> None \<or> \<not> found then Email identity else v)
              in case StringClaim c claimAudience of
                   (aud, found, err) \<Rightarrow>
                     if err \<noteq> None \<or> \<not> found then Inl ErrNoTokenAudience
                     else (case realmRoles ext c [] of
                             Inl e \<Rightarrow> Inl e
                           | Inr list1 \<Rightarrow>
                              (case resourceRoles ext c list1 of
                                 Inl e \<Rightarrow> Inl e
                               | Inr list \<Rightarrow>
                                   Inr \<lparr>id' = ID identity,
                                        email = Email identity,
                                        name = pn,
                                        preferredName = pn,
                                        expiresAt = ExpiresAt identity,
                                        roles = list,
                                        audience = aud,
                                        token = tok,
                                        claims = c,
                                        bearerToken = False\<rparr>)))))"

subsection \<open>What the upstream observes\<close>

text \<open>
  The values of a header name, as \<^verbatim>\<open>Header.Values\<close> reads them (the name is made
  canonical), and the values the upstream finds under a name once the handler has run.
\<close>

definition HeaderValues :: "Header \<Rightarrow> string \<Rightarrow> string list" where
  "HeaderValues h key = h (CanonicalMIMEHeaderKey key)"

definition upstreamHeader ::
  "Config \<Rightarrow> Externals \<Rightarrow> string list \<Rightarrow> Context \<Rightarrow> Request \<Rightarrow> string \<Rightarrow> string list" where
  "upstreamHeader cfg ext custom cx req key =
     HeaderValues (ReqHeader (upstreamHeadersHandler cfg ext custom cx req)) key"



subsection \<open>The configuration and requests of the tests\<close>

text \<open>
  \<^verbatim>\<open>newFakeKeycloakConfig\<close> and \<^verbatim>\<open>newFakeGinContext\<close> of the server tests, claims as the
  tests' tokens carry them and the user \<^verbatim>\<open>extractIdentity\<close> builds from them, and two answers
  of the collaborators:
  no session in the request, and a session whose token verifies.
\<close>

definition fakeConfig :: Config where
  "fakeConfig =
     \<lparr>ClientID = ''test'', SkipClientID = False, SkipTokenVerification = False,
      EnableRefreshTokens = False, IdleDuration = 0,
      Resources =
        [\<lparr>URL = ''/admin'', Methods = [''GET''], WhiteListed = False,
          Roles = [''role:admin'']\<rparr>,
         \<lparr>URL = ''/test_role'', Methods = [''GET''], WhiteListed = False,
          Roles = [''role:test'']\<rparr>,
         \<lparr>URL = ''/test_admin_roles'', Methods = [''GET''], WhiteListed = False,
          Roles = [''role:admin'', ''role:test'']\<rparr>,
         \<lparr>URL = ''/auth_all/white_listed'', Methods = [], WhiteListed = True, Roles = []\<rparr>,
         \<lparr>URL = ''/auth_all'', Methods = [''ANY''], WhiteListed = False, Roles = []\<rparr>,
         \<lparr>URL = ''/auth_all/white_listed'', Methods = [], WhiteListed = True, Roles = []\<rparr>],
      MatchClaims = [], Headers = []\<rparr>"

definition fakeRequest :: "string \<Rightarrow> string \<Rightarrow> Request" where
  "fakeRequest method uri =
     \<lparr>Method = method, Path = uri, ReqHeader = (\<lambda>k. []),
      RemoteAddr = ''127.0.0.1:8989'', Host = ''127.0.0.1''\<rparr>"

definition fakeClaims :: Claims where
  "fakeClaims =
     [(''aud'', CString ''test''),
      (''sub'', CString ''1e11e539-8256-4b3b-bda8-cc0d56cddb48''),
      (''resource_access'',
         CObject [(''openvpn'', CObject [(''roles'', CList [CString ''dev-vpn''])])]),
      (''email'', CString ''gambol99@gmail.com''),
      (''preferred_username'', CString ''rjayawardene''),
      (''exp'', CNumber 3600)]"

definition fakeToken :: "Claims \<Rightarrow> JWT" where
  "fakeToken c = JWT ''access-1'' (Some c)"

definition fakeUser :: userContext where
  "fakeUser =
     \<lparr>id' = ''1e11e539-8256-4b3b-bda8-cc0d56cddb48'', email = ''gambol99@gmail.com'',
      name = ''rjayawardene'', preferredName = ''rjayawardene'', expiresAt = 3600,
      roles = [''openvpn:dev-vpn''], audience = ''test'',
      token = fakeToken fakeClaims, claims = fakeClaims,
      bearerToken = False\<rparr>"

definition noSession :: Env where
  "noSession =
     \<lparr>getIdentity = Inl (ErrOther ''no session''), now = 0, verifyToken = (\<lambda>t. None),
      retrieveRefreshToken = (\<lambda>u. Inl (ErrOther ''no refresh token'')),
      getRefreshedToken = (\<lambda>rt. Inl (ErrOther ''refresh failed'')), useStore = False\<rparr>"

definition session :: "userContext \<Rightarrow> Env" where
  "session u =
     \<lparr>getIdentity = Inr u, now = 0, verifyToken = (\<lambda>t. None),
      retrieveRefreshToken = (\<lambda>u. Inl (ErrOther ''no refresh token'')),
      getRefreshedToken = (\<lambda>rt. Inl (ErrOther ''refresh failed'')), useStore = False\<rparr>"

text \<open>
  Further inputs: a pattern without metacharacters as \<^verbatim>\<open>regexp.MustCompile\<close> parses it; a
  table whose resource has no methods; a configuration with a claim to match and a
  context whose user carries that claim; a configuration that refreshes tokens and a
  session whose access token has expired, with the answer of the IdP to the refresh and
  whether a store is configured; the externals; a context with a user; and a request
  in which the client has set an identity header itself.
\<close>

fun literal :: "string \<Rightarrow> Regexp" where
  "literal [] = EmptyMatch"
| "literal (c # cs) = Cat (Lit c) (literal cs)"

definition emptyMethodsConfig :: Config where
  "emptyMethodsConfig =
     fakeConfig\<lparr>Resources :=
       [\<lparr>URL = ''/admin'', Methods = [], WhiteListed = False, Roles = [''admin'']\<rparr>]\<rparr>"

definition matchConfig :: Config where
  "matchConfig = fakeConfig\<lparr>MatchClaims := [(''azp'', literal ''clientid'')]\<rparr>"

definition claimContext :: "claim \<Rightarrow> Context" where
  "claimContext v =
     \<lparr>Enforcing = Some (Resources fakeConfig ! 4),
      userCtx = Some (fakeUser\<lparr>claims := [(''aud'', CString ''test''), (''azp'', v)]\<rparr>)\<rparr>"

definition refreshConfig :: Config where
  "refreshConfig = fakeConfig\<lparr>EnableRefreshTokens := True, IdleDuration := 3600\<rparr>"

definition expiredSession :: "(error + JWT \<times> int) \<Rightarrow> bool \<Rightarrow> Env" where
  "expiredSession refreshed store =
     \<lparr>getIdentity = Inr fakeUser, now = 7200,
      verifyToken = (\<lambda>t. Some ErrAccessTokenExpired),
      retrieveRefreshToken = (\<lambda>u. Inr ''refresh-1''),
      getRefreshedToken = (\<lambda>rt. refreshed), useStore = store\<rparr>"

definition fakeExternals :: Externals where
  "fakeExternals =
     \<lparr>toHeader = (\<lambda>x. x), prog = ''keycloak-proxy'', timeString = (\<lambda>t. ''expiry''),
      fmtS = (\<lambda>c. ''%!s(?)''), fmtV = (\<lambda>c. ''?'')\<rparr>"

definition userContextOf :: "userContext \<Rightarrow> Context" where
  "userContextOf u = \<lparr>Enforcing = Some (Resources fakeConfig ! 4), userCtx = Some u\<rparr>"

definition spoofedRequest :: Request where
  "spoofedRequest =
     (fakeRequest ''GET'' ''/auth_all/test'')
       \<lparr>ReqHeader := (\<lambda>k. if k = ''X-Auth-Userid'' then [''admin''] else [])\<rparr>"






section \<open>Properties\<close>

subsection \<open>Library functions and helpers\<close>

lemma HasPrefix_prefix: "HasPrefix s p = prefix p s"
  by (induction s p rule: HasPrefix.induct) auto

lemma containedIn_set: "containedIn v xs = (v \<in> set xs)"
  by (induction xs) auto

lemma hasRoles_subset: "hasRoles required issued = (set required \<subseteq> set issued)"
  by (induction required) (auto simp: containedIn_set)

subsection \<open>Resource matching\<close>

lemma entryPointLoop_skip:
  "\<forall>r\<in>set pre. \<not> HasPrefix path (URL r) \<Longrightarrow>
   entryPointLoop path m (pre @ rest) = entryPointLoop path m rest"
  by (induction pre) auto

lemma authenticationHandler_unprotected:
  "Enforcing cx = None \<Longrightarrow> authenticationHandler cfg env cx = (cx, [])"
  by (simp add: authenticationHandler_def)

lemma admissionHandler_unprotected:
  "Enforcing cx = None \<Longrightarrow> admissionHandler cfg cx = Inr []"
  by (simp add: admissionHandler_def)

lemma chain_unprotected:
  "Enforcing (entryPointHandler cfg req newContext) = None \<Longrightarrow>
   chain cfg env req = Proxied (entryPointHandler cfg req newContext) []"
  by (simp add: chain_def authenticationHandler_unprotected admissionHandler_unprotected)

text \<open>
  C2. Whatever the policy table and the request path, the first entry in declared order
  whose url is a prefix of the path decides alone: the handler leaves the context as it
  would with a table of that entry only, so the entries after it are not consulted. If
  that entry is whitelisted, the context is left unchanged and the chain proxies the
  request without any call of the authentication or admission stage, whatever the
  collaborators would answer.
\<close>

theorem first_match_decides:
  assumes "Resources cfg = pre @ e # post"
    and "\<forall>r\<in>set pre. \<not> HasPrefix (Path req) (URL r)"
    and "HasPrefix (Path req) (URL e)"
  shows "entryPointHandler cfg req cx = entryPointHandler (cfg\<lparr>Resources := [e]\<rparr>) req cx
       \<and> (WhiteListed e \<longrightarrow>
            entryPointHandler cfg req cx = cx \<and> chain cfg env req = Proxied newContext [])"
proof -
  have loop: "entryPointLoop (Path req) (Method req) (Resources cfg)
            = entryPointLoop (Path req) (Method req) [e]"
    using assms by (simp add: entryPointLoop_skip)
  have one: "entryPointHandler cfg req cx = entryPointHandler (cfg\<lparr>Resources := [e]\<rparr>) req cx"
    by (simp add: entryPointHandler_def loop)
  have wl: "entryPointHandler cfg req c = c" if "WhiteListed e" for c
    using that assms(3) by (simp add: entryPointHandler_def loop)
  have "chain cfg env req = Proxied newContext []" if "WhiteListed e"
    using chain_unprotected [of cfg req env] wl [OF that, of newContext]
    by (simp add: newContext_def)
  with one wl show ?thesis by blast
qed

theorem first_match_decides_witness:
  "Resources fakeConfig
     = take 3 (Resources fakeConfig) @ Resources fakeConfig ! 3 # drop 4 (Resources fakeConfig)
   \<and> \<not> list_ex (\<lambda>r. HasPrefix (Path (fakeRequest ''GET'' ''/auth_all/white_listed/x'')) (URL r))
         (take 3 (Resources fakeConfig))
   \<and> HasPrefix (Path (fakeRequest ''GET'' ''/auth_all/white_listed/x''))
        (URL (Resources fakeConfig ! 3))
   \<and> WhiteListed (Resources fakeConfig ! 3)
   \<and> chain fakeConfig noSession (fakeRequest ''GET'' ''/auth_all/white_listed/x'')
       = Proxied newContext []"
  using first_match_decides [of fakeConfig
      "take 3 (Resources fakeConfig)" "Resources fakeConfig ! 3" "drop 4 (Resources fakeConfig)"
      "fakeRequest ''GET'' ''/auth_all/white_listed/x''" newContext noSession]
  by (simp add: fakeConfig_def fakeRequest_def)

subsection \<open>Admission: roles\<close>

lemma authenticationHandler_enforcing:
  "authenticationHandler cfg env cx = (cx', t) \<Longrightarrow> Enforcing cx' = Enforcing cx"
  by (auto simp: authenticationHandler_def refreshAccessToken_def Let_def
           split: option.splits sum.splits if_splits prod.splits)

lemma authenticationHandler_valid:
  "Enforcing cx = Some r \<Longrightarrow> getIdentity env = Inr user \<Longrightarrow>
   (if SkipTokenVerification cfg then \<not> isExpired user (now env)
    else verifyToken env (token user) = None) \<Longrightarrow>
   authenticationHandler cfg env cx = (cx\<lparr>userCtx := Some user\<rparr>, [])"
  by (auto simp: authenticationHandler_def Let_def)

lemma admissionHandler_permit_roles:
  "admissionHandler cfg cx = Inr t \<Longrightarrow> \<not> aborts t \<Longrightarrow> Enforcing cx = Some resource \<Longrightarrow>
   \<exists>user. userCtx cx = Some user \<and> set (Roles resource) \<subseteq> set (roles user)"
  by (auto simp: admissionHandler_def hasRoles_subset split: option.splits if_splits)

lemma admissionHandler_deny_roles:
  "Enforcing cx = Some resource \<Longrightarrow> userCtx cx = Some user \<Longrightarrow>
   \<not> set (Roles resource) \<subseteq> set (roles user) \<Longrightarrow>
   admissionHandler cfg cx = Inr [AccessForbidden]"
  by (auto simp: admissionHandler_def hasRoles_subset)

text \<open>
  C1. Let the entry point attach a protected resource whose roles list is not empty.
  Every request the chain then proxies has an identity whose roles contain every role of
  the resource, as sets, so the order of the user's roles does not matter. And a request
  whose token is accepted (it verifies, or verification is skipped and it has not
  expired) but lacks a required role is aborted by the call of \<^verbatim>\<open>accessForbidden\<close>, which
  answers 403.
\<close>

theorem required_roles_subset:
  assumes "Enforcing (entryPointHandler cfg req newContext) = Some resource"
    and "Roles resource \<noteq> []"
  shows "(\<forall>cx t. chain cfg env req = Proxied cx t \<longrightarrow>
            (\<exists>user. userCtx cx = Some user \<and> set (Roles resource) \<subseteq> set (roles user)))
       \<and> (\<forall>user. getIdentity env = Inr user
              \<and> (if SkipTokenVerification cfg then \<not> isExpired user (now env)
                  else verifyToken env (token user) = None)
              \<and> \<not> set (Roles resource) \<subseteq> set (roles user) \<longrightarrow>
            chain cfg env req = Aborted [AccessForbidden]
            \<and> statusOf AccessForbidden = Some 403)"
proof (intro conjI allI impI)
  fix cx t
  assume proxied: "chain cfg env req = Proxied cx t"
  obtain cx1 t1 where
    auth: "authenticationHandler cfg env (entryPointHandler cfg req newContext) = (cx1, t1)"
    by (cases "authenticationHandler cfg env (entryPointHandler cfg req newContext)")
  from proxied auth have t1: "\<not> aborts t1"
    by (auto simp: chain_def split: if_splits)
  from proxied auth t1 obtain t2 where
    adm: "admissionHandler cfg cx1 = Inr t2" and t2: "\<not> aborts t2" and cx: "cx = cx1"
    by (auto simp: chain_def split: sum.splits if_splits)
  have "Enforcing cx1 = Some resource"
    using authenticationHandler_enforcing [OF auth] assms(1) by simp
  from admissionHandler_permit_roles [OF adm t2 this] cx
  show "\<exists>user. userCtx cx = Some user \<and> set (Roles resource) \<subseteq> set (roles user)"
    by simp
next
  fix user
  assume a: "getIdentity env = Inr user
      \<and> (if SkipTokenVerification cfg then \<not> isExpired user (now env)
          else verifyToken env (token user) = None)
      \<and> \<not> set (Roles resource) \<subseteq> set (roles user)"
  let ?cx = "entryPointHandler cfg req newContext"
  have auth: "authenticationHandler cfg env ?cx = (?cx\<lparr>userCtx := Some user\<rparr>, [])"
    using authenticationHandler_valid [OF assms(1), of env user cfg] a by simp
  have "admissionHandler cfg (?cx\<lparr>userCtx := Some user\<rparr>) = Inr [AccessForbidden]"
    using admissionHandler_deny_roles [of "?cx\<lparr>userCtx := Some user\<rparr>" resource user cfg]
      assms(1) a by simp
  with auth show "chain cfg env req = Aborted [AccessForbidden]"
    by (simp add: chain_def)
next
  show "statusOf AccessForbidden = Some 403" by simp
qed

theorem required_roles_subset_witness:
  "Enforcing (entryPointHandler fakeConfig (fakeRequest ''GET'' ''/admin/foo'') newContext)
     = Some (Resources fakeConfig ! 0)
   \<and> Roles (Resources fakeConfig ! 0) \<noteq> []
   \<and> getIdentity (session fakeUser) = Inr fakeUser
   \<and> verifyToken (session fakeUser) (token fakeUser) = None
   \<and> \<not> set (Roles (Resources fakeConfig ! 0)) \<subseteq> set (roles fakeUser)
   \<and> chain fakeConfig (session fakeUser) (fakeRequest ''GET'' ''/admin/foo'')
       = Aborted [AccessForbidden]"
proof -
  have e: "Enforcing (entryPointHandler fakeConfig (fakeRequest ''GET'' ''/admin/foo'') newContext)
     = Some (Resources fakeConfig ! 0)"
    by (simp add: entryPointHandler_def fakeConfig_def fakeRequest_def oauthURL_def
          newContext_def)
  have r: "Roles (Resources fakeConfig ! 0) \<noteq> []"
    by (simp add: fakeConfig_def)
  show ?thesis
    using required_roles_subset [OF e r, of "session fakeUser"] e r
    by (simp add: session_def fakeUser_def fakeConfig_def)
qed

subsection \<open>Resources without methods\<close>

text \<open>
  C3. A resource that is not whitelisted and has an empty methods list, first in the table
  to match the path: the handler tests only whether the methods contain \<^verbatim>\<open>"ANY"\<close> or the
  request method, so for \<^verbatim>\<open>GET /admin/x\<close> against \<^verbatim>\<open>{url: /admin, methods: [], roles:
  [admin]}\<close> it stores no resource to enforce, and the chain proxies the request without a
  session. The configuration's documentation says of the methods "if missing, we assuming
  all".
\<close>

theorem empty_methods_unprotected:
  "Enforcing (entryPointHandler emptyMethodsConfig (fakeRequest ''GET'' ''/admin/x'') newContext)
     = None
   \<and> chain emptyMethodsConfig noSession (fakeRequest ''GET'' ''/admin/x'')
       = Proxied newContext []"
  by (simp add: chain_def authenticationHandler_def admissionHandler_def entryPointHandler_def
        emptyMethodsConfig_def fakeConfig_def fakeRequest_def oauthURL_def newContext_def)

subsection \<open>Admission: audience\<close>

lemma admissionHandler_ignores_SkipClientID:
  "admissionHandler (cfg\<lparr>SkipClientID := b\<rparr>) cx = admissionHandler cfg cx"
  by (simp add: admissionHandler_def split: option.splits)

text \<open>
  C4. With \<^verbatim>\<open>SkipClientID\<close> set, \<^verbatim>\<open>ClientID = "test"\<close> and a verified token whose audience
  is \<^verbatim>\<open>bad_client_id\<close>, the request \<^verbatim>\<open>GET /auth_all/test\<close> of \<^verbatim>\<open>TestSkipClientIDEnabled\<close> is
  aborted by \<^verbatim>\<open>accessForbidden\<close>: the admission handler compares the audience whenever
  \<^verbatim>\<open>ClientID\<close> is not empty and does not read \<^verbatim>\<open>SkipClientID\<close>.
\<close>

theorem skipClientID_forbidden:
  "SkipClientID (fakeConfig\<lparr>SkipClientID := True\<rparr>)
   \<and> chain (fakeConfig\<lparr>SkipClientID := True\<rparr>)
        (session (fakeUser\<lparr>audience := ''bad_client_id''\<rparr>))
        (fakeRequest ''GET'' ''/auth_all/test'')
      = Aborted [AccessForbidden]"
  by (simp add: chain_def authenticationHandler_def admissionHandler_def entryPointHandler_def
        isAudience_def session_def fakeUser_def
        fakeConfig_def fakeRequest_def oauthURL_def newContext_def)

subsection \<open>Admission: claim matches\<close>

lemma admissionClaims_cases:
  "admissionClaims ms user =
     (if \<forall>(n, re)\<in>set ms. \<exists>v. map_of (claims user) n = Some (CString v) \<and> MatchString re v
      then [] else [AccessForbidden])"
proof (induction ms)
  case Nil
  then show ?case by simp
next
  case (Cons m ms)
  obtain n re where m: "m = (n, re)" by (cases m)
  show ?case
  proof (cases "map_of (claims user) n")
    case None
    then show ?thesis by (simp add: m StringClaim_def)
  next
    case (Some c)
    then show ?thesis
      using Cons.IH by (cases c) (simp_all add: m StringClaim_def)
  qed
qed

text \<open>
  C5, as stated, fails: with the pattern \<^verbatim>\<open>clientid\<close> for the claim \<^verbatim>\<open>azp\<close>, a token whose
  \<^verbatim>\<open>azp\<close> is the string \<^verbatim>\<open>clientid-2\<close> is admitted, though the pattern does not match the
  entire value.
\<close>

theorem claim_full_match_counterexample:
  "admissionHandler matchConfig (claimContext (CString ''clientid-2'')) = Inr []
   \<and> StringClaim [(''aud'', CString ''test''), (''azp'', CString ''clientid-2'')] ''azp''
       = (''clientid-2'', True, None)
   \<and> \<not> matchesFully (literal ''clientid'') ''clientid-2''"
  by code_simp

text \<open>
  C5, amended. For a request to a protected resource: if the admission handler admits it,
  then for every entry of the match-claims table the named claim is on the token as a
  string and the regex matches somewhere in that value (\<^verbatim>\<open>MatchString\<close>, an unanchored
  search); and if for some entry the claim is missing, is not a string, or has a value the
  regex matches nowhere, the handler calls \<^verbatim>\<open>accessForbidden\<close>, which answers 403.
\<close>

theorem claim_match_unanchored:
  assumes "Enforcing cx = Some resource"
  shows "(admissionHandler cfg cx = Inr [] \<longrightarrow>
           (\<exists>user. userCtx cx = Some user
              \<and> (\<forall>(n, re)\<in>set (MatchClaims cfg).
                    \<exists>v. map_of (claims user) n = Some (CString v) \<and> MatchString re v)))
       \<and> (\<forall>user n re. userCtx cx = Some user \<and> (n, re) \<in> set (MatchClaims cfg)
              \<and> (\<forall>v. map_of (claims user) n = Some (CString v) \<longrightarrow> \<not> MatchString re v) \<longrightarrow>
            admissionHandler cfg cx = Inr [AccessForbidden]
            \<and> statusOf AccessForbidden = Some 403)"
proof (intro conjI allI impI)
  assume "admissionHandler cfg cx = Inr []"
  then show "\<exists>user. userCtx cx = Some user
      \<and> (\<forall>(n, re)\<in>set (MatchClaims cfg).
            \<exists>v. map_of (claims user) n = Some (CString v) \<and> MatchString re v)"
    using assms
    by (auto simp: admissionHandler_def admissionClaims_cases
             split: option.splits if_splits)
next
  fix user n re
  assume a: "userCtx cx = Some user \<and> (n, re) \<in> set (MatchClaims cfg)
      \<and> (\<forall>v. map_of (claims user) n = Some (CString v) \<longrightarrow> \<not> MatchString re v)"
  then have "admissionClaims (MatchClaims cfg) user = [AccessForbidden]"
    by (auto simp: admissionClaims_cases)
  with a assms show "admissionHandler cfg cx = Inr [AccessForbidden]"
    by (simp add: admissionHandler_def)
next
  show "statusOf AccessForbidden = Some 403" by simp
qed

theorem claim_match_unanchored_witness:
  "Enforcing (claimContext (CString ''clientid-2'')) = Some (Resources fakeConfig ! 4)
   \<and> admissionHandler matchConfig (claimContext (CString ''clientid-2'')) = Inr []
   \<and> MatchString (literal ''clientid'') ''clientid-2''
   \<and> admissionHandler matchConfig (claimContext (CString ''other'')) = Inr [AccessForbidden]
   \<and> admissionHandler matchConfig (claimContext (CNumber 2)) = Inr [AccessForbidden]"
proof -
  have e: "Enforcing (claimContext v) = Some (Resources fakeConfig ! 4)" for v
    by (simp add: claimContext_def)
  have ok: "admissionHandler matchConfig (claimContext (CString ''clientid-2'')) = Inr []"
    by code_simp
  have m: "MatchString (literal ''clientid'') ''clientid-2''"
    using claim_match_unanchored [OF e, of matchConfig "CString ''clientid-2''"] ok
    by (simp add: matchConfig_def claimContext_def)
  have no: "\<not> MatchString (literal ''clientid'') ''other''"
    by code_simp
  have d1: "admissionHandler matchConfig (claimContext (CString ''other'')) = Inr [AccessForbidden]"
    using claim_match_unanchored [OF e, of matchConfig "CString ''other''"] no
    by (simp add: matchConfig_def claimContext_def)
  have d2: "admissionHandler matchConfig (claimContext (CNumber 2)) = Inr [AccessForbidden]"
    using claim_match_unanchored [OF e, of matchConfig "CNumber 2"]
    by (simp add: matchConfig_def claimContext_def)
  from e ok m d1 d2 show ?thesis by simp
qed

subsection \<open>Token refresh\<close>

text \<open>
  C6. When the handler has found a refresh token for an expired session and the refresh
  at the IdP fails, the calls it makes are \<^verbatim>\<open>clearAllCookies\<close> followed by
  \<^verbatim>\<open>redirectToAuthorization\<close> if the error is \<^verbatim>\<open>ErrRefreshTokenExpired\<close>, and
  \<^verbatim>\<open>redirectToAuthorization\<close> alone for any other error: the cookies are cleared exactly for
  the distinguished error, and the request is redirected in both cases.
\<close>

theorem refresh_failure_cookies:
  assumes "Enforcing cx = Some resource"
    and "getIdentity env = Inr user"
    and "\<not> SkipTokenVerification cfg"
    and "verifyToken env (token user) = Some ErrAccessTokenExpired"
    and "EnableRefreshTokens cfg"
    and "\<not> isBearer user"
    and "retrieveRefreshToken env user = Inr rToken"
    and "getRefreshedToken env rToken = Inl err"
  shows "snd (authenticationHandler cfg env cx)
       = (if err = ErrRefreshTokenExpired then [ClearAllCookies, RedirectToAuthorization]
          else [RedirectToAuthorization])"
  using assms by (simp add: authenticationHandler_def refreshAccessToken_def)

theorem refresh_failure_cookies_witness:
  "snd (authenticationHandler refreshConfig (expiredSession (Inl ErrRefreshTokenExpired) False)
          (userContextOf fakeUser))
     = [ClearAllCookies, RedirectToAuthorization]
   \<and> snd (authenticationHandler refreshConfig
          (expiredSession (Inl (ErrOther ''connection refused'')) False)
          (userContextOf fakeUser))
     = [RedirectToAuthorization]"
  using refresh_failure_cookies [of "userContextOf fakeUser"
      "Resources fakeConfig ! 4" "expiredSession (Inl ErrRefreshTokenExpired) False" fakeUser
      refreshConfig "''refresh-1''" ErrRefreshTokenExpired]
    refresh_failure_cookies [of "userContextOf fakeUser"
      "Resources fakeConfig ! 4" "expiredSession (Inl (ErrOther ''connection refused'')) False"
      fakeUser refreshConfig "''refresh-1''" "ErrOther ''connection refused''"]
  by (simp add: refreshConfig_def expiredSession_def isBearer_def fakeUser_def fakeConfig_def
        userContextOf_def)

text \<open>
  C7. A session with the expired access token \<^verbatim>\<open>access-1\<close> and the refresh token
  \<^verbatim>\<open>refresh-1\<close>, a store configured, and a refresh that returns \<^verbatim>\<open>access-2\<close>: the handler
  writes the access cookie with the new token, then starts the goroutine, which deletes
  the store entry of \<^verbatim>\<open>access-1\<close> and then stores the refresh token under \<^verbatim>\<open>access-1\<close> again,
  the old token, not under \<^verbatim>\<open>access-2\<close>.
\<close>

theorem refresh_store_keyed_by_old_token:
  "authenticationHandler refreshConfig
     (expiredSession (Inr (JWT ''access-2'' None, 10800)) True) (userContextOf fakeUser)
   = (userContextOf (fakeUser\<lparr>token := JWT ''access-2'' None\<rparr>),
      [DropAccessTokenCookie ''access-2'' 3600,
       GoFunc [DeleteRefreshToken (fakeToken fakeClaims),
               StoreRefreshToken (fakeToken fakeClaims) ''refresh-1'']])
   \<and> Encode (fakeToken fakeClaims) = ''access-1''"
  by (simp add: authenticationHandler_def refreshAccessToken_def refreshConfig_def
        expiredSession_def isBearer_def fakeUser_def fakeConfig_def userContextOf_def
        fakeToken_def)

subsection \<open>Upstream headers\<close>

lemma HeaderAdd_apply:
  "HeaderAdd h key v k = (if CanonicalMIMEHeaderKey key = k then h k @ [v] else h k)"
  by (simp add: HeaderAdd_def Let_def)

lemma HeaderSet_apply:
  "HeaderSet h key v k = (if CanonicalMIMEHeaderKey key = k then [v] else h k)"
  by (simp add: HeaderSet_def Let_def)

lemma HeaderAdd_append: "\<exists>zs. HeaderAdd h key v k = h k @ zs"
  by (simp add: HeaderAdd_apply)

lemma canonical_names:
  "CanonicalMIMEHeaderKey ''X-Auth-Userid'' = ''X-Auth-Userid''"
  "CanonicalMIMEHeaderKey ''X-Auth-Subject'' = ''X-Auth-Subject''"
  "CanonicalMIMEHeaderKey ''X-Auth-Username'' = ''X-Auth-Username''"
  "CanonicalMIMEHeaderKey ''X-Auth-Email'' = ''X-Auth-Email''"
  "CanonicalMIMEHeaderKey ''X-Auth-ExpiresIn'' = ''X-Auth-Expiresin''"
  "CanonicalMIMEHeaderKey ''X-Auth-Token'' = ''X-Auth-Token''"
  "CanonicalMIMEHeaderKey ''X-Auth-Roles'' = ''X-Auth-Roles''"
  "CanonicalMIMEHeaderKey ''Authorization'' = ''Authorization''"
  "CanonicalMIMEHeaderKey ''X-Forwarded-For'' = ''X-Forwarded-For''"
  "CanonicalMIMEHeaderKey ''X-Forwarded-Agent'' = ''X-Forwarded-Agent''"
  "CanonicalMIMEHeaderKey ''X-Forwarded-Host'' = ''X-Forwarded-Host''"
  by code_simp+

lemma canonical_X: "\<exists>t. CanonicalMIMEHeaderKey (CHR ''X'' # s) = CHR ''X'' # t"
  by (simp add: CanonicalMIMEHeaderKey_def Let_def lowers_def)

lemma customClaims_header:
  "(c, hdr) \<in> set (customClaims ext custom) \<Longrightarrow> \<exists>t. CanonicalMIMEHeaderKey hdr = CHR ''X'' # t"
  using canonical_X by (auto simp: customClaims_def)

lemma addCustomClaims_other:
  "\<forall>(c, hdr)\<in>set cs. CanonicalMIMEHeaderKey hdr \<noteq> k \<Longrightarrow>
   addCustomClaims ext cs ident h k = h k"
  unfolding addCustomClaims_def
  by (induction cs arbitrary: h) (auto simp: HeaderAdd_apply split: option.splits)

lemma addCustomClaims_append: "\<exists>zs. addCustomClaims ext cs ident h k = h k @ zs"
  unfolding addCustomClaims_def
proof (induction cs arbitrary: h)
  case Nil
  then show ?case by simp
next
  case (Cons a cs)
  obtain c hdr where a: "a = (c, hdr)" by (cases a)
  show ?case
  proof (cases "map_of (claims ident) c")
    case None
    then show ?thesis using Cons [of h] by (simp add: a)
  next
    case (Some cl)
    obtain zs where zs: "fold (\<lambda>(claim, header) h.
             case map_of (claims ident) claim of
               Some c \<Rightarrow> HeaderAdd h header (SprintV ext c)
             | None \<Rightarrow> h) cs (HeaderAdd h hdr (SprintV ext cl)) k
          = HeaderAdd h hdr (SprintV ext cl) k @ zs"
      using Cons [of "HeaderAdd h hdr (SprintV ext cl)"] by blast
    obtain ys where ys: "HeaderAdd h hdr (SprintV ext cl) k = h k @ ys"
      using HeaderAdd_append by blast
    show ?thesis by (simp add: a Some zs ys)
  qed
qed

lemma addConfigHeaders_append: "\<exists>ys. addConfigHeaders hs h k = h k @ ys"
  unfolding addConfigHeaders_def
proof (induction hs arbitrary: h)
  case Nil
  then show ?case by simp
next
  case (Cons a hs)
  obtain n v where a: "a = (n, v)" by (cases a)
  obtain zs where zs: "fold (\<lambda>(k, v) h. HeaderAdd h k v) hs (HeaderAdd h n v) k
      = HeaderAdd h n v k @ zs"
    using Cons [of "HeaderAdd h n v"] by blast
  obtain ys where ys: "HeaderAdd h n v k = h k @ ys"
    using HeaderAdd_append by blast
  show ?case by (simp add: a zs ys)
qed

lemma addCustomClaims_Authorization:
  "addCustomClaims ext (customClaims ext custom) ident h ''Authorization'' = h ''Authorization''"
  by (rule addCustomClaims_other) (auto dest: customClaims_header)

lemma authorization_replaced:
  assumes "userCtx cx = Some ident"
  shows "upstreamHeader cfg ext custom cx req ''Authorization''
       = [''Bearer '' @ Encode (token ident)]"
  using assms
  by (simp add: upstreamHeader_def HeaderValues_def upstreamHeadersHandler_def Let_def
        addIdentityHeaders_def addCustomClaims_Authorization
        HeaderAdd_apply HeaderSet_apply canonical_names)

lemma forwarded_replaced:
  "upstreamHeader cfg ext custom cx req ''X-Forwarded-Agent'' = [prog ext]"
  "upstreamHeader cfg ext custom cx req ''X-Forwarded-Host'' = [Host req]"
  by (simp_all add: upstreamHeader_def HeaderValues_def upstreamHeadersHandler_def Let_def
        HeaderAdd_apply HeaderSet_apply canonical_names)

lemma forwarded_for_appended:
  "\<exists>vs. upstreamHeader cfg ext custom cx req ''X-Forwarded-For''
          = HeaderValues (ReqHeader req) ''X-Forwarded-For'' @ vs \<and> RemoteAddr req \<in> set vs"
proof -
  obtain ys where ys: "addConfigHeaders (Headers cfg) (ReqHeader req) ''X-Forwarded-For''
      = ReqHeader req ''X-Forwarded-For'' @ ys"
    using addConfigHeaders_append by blast
  show ?thesis
  proof (cases "userCtx cx")
    case None
    then show ?thesis
      by (simp add: upstreamHeader_def HeaderValues_def upstreamHeadersHandler_def Let_def
            HeaderAdd_apply HeaderSet_apply canonical_names ys)
  next
    case (Some ident)
    obtain zs where zs: "\<And>h. addCustomClaims ext (customClaims ext custom) ident h ''X-Forwarded-For''
        = h ''X-Forwarded-For'' @ zs h"
      using addCustomClaims_append [of ext "customClaims ext custom" ident _ "''X-Forwarded-For''"]
      by metis
    show ?thesis
      by (simp add: Some upstreamHeader_def HeaderValues_def upstreamHeadersHandler_def Let_def
            addIdentityHeaders_def zs
            HeaderAdd_apply HeaderSet_apply canonical_names ys)
  qed
qed

lemma identity_header_appended:
  assumes "userCtx cx = Some ident"
    and "(k, v) \<in> set [(''X-Auth-Userid'', name ident), (''X-Auth-Subject'', id' ident),
                        (''X-Auth-Username'', name ident), (''X-Auth-Email'', email ident),
                        (''X-Auth-ExpiresIn'', timeString ext (expiresAt ident)),
                        (''X-Auth-Token'', Encode (token ident)),
                        (''X-Auth-Roles'', Join (roles ident) '','')]"
  shows "\<exists>vs. upstreamHeader cfg ext custom cx req k = HeaderValues (ReqHeader req) k @ vs
              \<and> v \<in> set vs"
proof -
  obtain ys where ys: "\<And>key. addConfigHeaders (Headers cfg) (ReqHeader req) key
      = ReqHeader req key @ ys key"
    using addConfigHeaders_append [of "Headers cfg" "ReqHeader req"] by metis
  obtain zs where zs: "\<And>h key. addCustomClaims ext (customClaims ext custom) ident h key
        = h key @ zs h key"
    using addCustomClaims_append [of ext "customClaims ext custom" ident] by metis
  from assms(2) have "k = ''X-Auth-Userid'' \<and> v = name ident
      \<or> k = ''X-Auth-Subject'' \<and> v = id' ident
      \<or> k = ''X-Auth-Username'' \<and> v = name ident
      \<or> k = ''X-Auth-Email'' \<and> v = email ident
      \<or> k = ''X-Auth-ExpiresIn'' \<and> v = timeString ext (expiresAt ident)
      \<or> k = ''X-Auth-Token'' \<and> v = Encode (token ident)
      \<or> k = ''X-Auth-Roles'' \<and> v = Join (roles ident) '',''"
    by auto
  then show ?thesis
    by (elim disjE conjE)
       (simp_all add: assms(1) upstreamHeader_def HeaderValues_def upstreamHeadersHandler_def
          Let_def addIdentityHeaders_def zs HeaderAdd_apply HeaderSet_apply canonical_names ys)
qed

text \<open>
  C8, as stated, fails: a client that sends \<^verbatim>\<open>X-Auth-Userid: admin\<close> has its value reach the
  upstream, in front of the proxy's value when the request has an identity, and alone when
  it has none.
\<close>

theorem client_header_counterexample:
  "HeaderValues (ReqHeader spoofedRequest) ''X-Auth-Userid'' = [''admin'']
   \<and> upstreamHeader fakeConfig fakeExternals [] (userContextOf fakeUser) spoofedRequest
        ''X-Auth-Userid''
      = [''admin'', ''rjayawardene'']
   \<and> upstreamHeader fakeConfig fakeExternals [] newContext spoofedRequest ''X-Auth-Userid''
      = [''admin'']"
  by code_simp

text \<open>
  C8, amended. For every request the handler forwards: \<^verbatim>\<open>X-Forwarded-Agent\<close> and
  \<^verbatim>\<open>X-Forwarded-Host\<close> carry the proxy-set value alone, and so does \<^verbatim>\<open>Authorization\<close> when
  the request has an identity (any client value is replaced). Under \<^verbatim>\<open>X-Forwarded-For\<close>,
  and when the request has an identity under \<^verbatim>\<open>X-Auth-Userid\<close>, \<^verbatim>\<open>X-Auth-Subject\<close>,
  \<^verbatim>\<open>X-Auth-Username\<close>, \<^verbatim>\<open>X-Auth-Email\<close>, \<^verbatim>\<open>X-Auth-ExpiresIn\<close>, \<^verbatim>\<open>X-Auth-Token\<close> and
  \<^verbatim>\<open>X-Auth-Roles\<close>, the proxy-set value is added after the values the client supplied for
  that name, which stay in the request.
\<close>

theorem upstream_headers_set_or_appended:
  "upstreamHeader cfg ext custom cx req ''X-Forwarded-Agent'' = [prog ext]
   \<and> upstreamHeader cfg ext custom cx req ''X-Forwarded-Host'' = [Host req]
   \<and> (\<exists>vs. upstreamHeader cfg ext custom cx req ''X-Forwarded-For''
              = HeaderValues (ReqHeader req) ''X-Forwarded-For'' @ vs
            \<and> RemoteAddr req \<in> set vs)
   \<and> (\<forall>ident. userCtx cx = Some ident \<longrightarrow>
         upstreamHeader cfg ext custom cx req ''Authorization''
           = [''Bearer '' @ Encode (token ident)]
         \<and> (\<forall>(k, v)\<in>set [(''X-Auth-Userid'', name ident), (''X-Auth-Subject'', id' ident),
                          (''X-Auth-Username'', name ident), (''X-Auth-Email'', email ident),
                          (''X-Auth-ExpiresIn'', timeString ext (expiresAt ident)),
                          (''X-Auth-Token'', Encode (token ident)),
                          (''X-Auth-Roles'', Join (roles ident) '','')].
               \<exists>vs. upstreamHeader cfg ext custom cx req k
                      = HeaderValues (ReqHeader req) k @ vs
                    \<and> v \<in> set vs))"
proof (intro conjI allI impI ballI)
  fix ident kv
  assume u: "userCtx cx = Some ident"
    and kv: "kv \<in> set [(''X-Auth-Userid'', name ident), (''X-Auth-Subject'', id' ident),
                          (''X-Auth-Username'', name ident), (''X-Auth-Email'', email ident),
                          (''X-Auth-ExpiresIn'', timeString ext (expiresAt ident)),
                          (''X-Auth-Token'', Encode (token ident)),
                          (''X-Auth-Roles'', Join (roles ident) '','')]"
  obtain k v where "kv = (k, v)" by (cases kv)
  with identity_header_appended [OF u, of k v ext cfg custom req] kv
  show "case kv of (k, v) \<Rightarrow>
          \<exists>vs. upstreamHeader cfg ext custom cx req k = HeaderValues (ReqHeader req) k @ vs
               \<and> v \<in> set vs"
    by simp
qed (simp_all add: forwarded_replaced forwarded_for_appended authorization_replaced)

theorem upstream_headers_set_or_appended_witness:
  "userCtx (userContextOf fakeUser) = Some fakeUser
   \<and> upstreamHeader fakeConfig fakeExternals [] (userContextOf fakeUser) spoofedRequest
        ''Authorization''
      = [''Bearer access-1'']
   \<and> upstreamHeader fakeConfig fakeExternals [] (userContextOf fakeUser) spoofedRequest
        ''X-Forwarded-Host''
      = [''127.0.0.1'']"
proof -
  have u: "userCtx (userContextOf fakeUser) = Some fakeUser"
    by (simp add: userContextOf_def)
  from upstream_headers_set_or_appended
         [of fakeConfig fakeExternals "[]" "userContextOf fakeUser" spoofedRequest]
  have "upstreamHeader fakeConfig fakeExternals [] (userContextOf fakeUser) spoofedRequest
          ''X-Forwarded-Host'' = [Host spoofedRequest]"
    and "upstreamHeader fakeConfig fakeExternals [] (userContextOf fakeUser) spoofedRequest
          ''Authorization'' = [''Bearer '' @ Encode (token fakeUser)]"
    using u by blast+
  with u show ?thesis
    by (simp add: fakeUser_def fakeToken_def spoofedRequest_def fakeRequest_def)
qed

subsection \<open>Identity extraction\<close>

lemma map_of_filter_other:
  "n \<noteq> p \<Longrightarrow> map_of (filter (\<lambda>(k, v). k \<noteq> p) c) n = map_of c n"
  by (induction c) auto

lemma StringClaim_filter:
  "n \<noteq> p \<Longrightarrow> StringClaim (filter (\<lambda>(k, v). k \<noteq> p) c) n = StringClaim c n"
  by (simp add: StringClaim_def map_of_filter_other)

lemma TimeClaim_filter:
  "n \<noteq> p \<Longrightarrow> TimeClaim (filter (\<lambda>(k, v). k \<noteq> p) c) n = TimeClaim c n"
  by (simp add: TimeClaim_def map_of_filter_other)

lemma IdentityFromClaims_filter:
  "IdentityFromClaims (filter (\<lambda>(k, v). k \<noteq> claimPreferredName) c) = IdentityFromClaims c"
  by (simp add: IdentityFromClaims_def StringClaim_filter TimeClaim_filter claimPreferredName_def
           cong: prod.case_cong option.case_cong bool.case_cong)

lemma realmRoles_filter:
  "realmRoles ext (filter (\<lambda>(k, v). k \<noteq> claimPreferredName) c) l = realmRoles ext c l"
  by (simp add: realmRoles_def map_of_filter_other claimPreferredName_def claimRealmAccess_def)

lemma resourceRoles_filter:
  "resourceRoles ext (filter (\<lambda>(k, v). k \<noteq> claimPreferredName) c) l = resourceRoles ext c l"
  by (simp add: resourceRoles_def map_of_filter_other claimPreferredName_def
        claimResourceAccess_def)

lemma audience_filter:
  "StringClaim (filter (\<lambda>(k, v). k \<noteq> claimPreferredName) c) claimAudience
     = StringClaim c claimAudience"
  by (simp add: StringClaim_filter claimPreferredName_def claimAudience_def)

lemma IdentityFromClaims_error:
  "IdentityFromClaims c = Inl e \<Longrightarrow> \<exists>m. e = ErrOther m"
  by (auto simp: IdentityFromClaims_def StringClaim_def TimeClaim_def
           split: option.splits claim.splits if_splits)

lemma realmRoles_error: "realmRoles ext c l = Inl e \<Longrightarrow> \<exists>m. e = Panic m"
  by (auto simp: realmRoles_def split: option.splits claim.splits)

lemma accessRoles_error: "accessRoles ext as l = Inl e \<Longrightarrow> \<exists>m. e = Panic m"
  by (induction ext as l rule: accessRoles.induct)
     (auto split: option.splits claim.splits)

lemma resourceRoles_error: "resourceRoles ext c l = Inl e \<Longrightarrow> \<exists>m. e = Panic m"
  by (auto simp: resourceRoles_def split: option.splits claim.splits dest: accessRoles_error)

lemma StringClaim_ok:
  "(case StringClaim c n of (v, found, err) \<Rightarrow> err \<noteq> None \<or> \<not> found)
     = (\<forall>v. map_of c n \<noteq> Some (CString v))"
  by (auto simp: StringClaim_def split: option.splits claim.splits)

lemma IdentityFromClaims_sub:
  "IdentityFromClaims c = Inr identity \<Longrightarrow> map_of c ''sub'' = Some (CString (ID identity))"
proof (cases "map_of c ''sub''")
  case None
  then show "IdentityFromClaims c = Inr identity \<Longrightarrow> ?thesis"
    by (simp add: IdentityFromClaims_def StringClaim_def)
next
  case (Some s)
  then show "IdentityFromClaims c = Inr identity \<Longrightarrow> ?thesis"
    by (cases s)
       (auto simp: IdentityFromClaims_def StringClaim_def split: prod.splits option.splits)
qed

lemma preferred_name_fallback:
  "(case StringClaim c n of (v, found, err) \<Rightarrow> if err \<noteq> None \<or> \<not> found then e else v)
     = (case map_of c n of Some (CString v) \<Rightarrow> v | _ \<Rightarrow> e)"
  by (simp add: StringClaim_def split: option.splits claim.splits)

lemma extractIdentity_fields:
  "extractIdentity ext tok = Inr u \<Longrightarrow>
   \<exists>c identity. TokenClaims tok = Inr c \<and> IdentityFromClaims c = Inr identity
     \<and> claims u = c \<and> id' u = ID identity \<and> email u = Email identity
     \<and> name u = (case StringClaim c claimPreferredName of
                    (v, found, err) \<Rightarrow> if err \<noteq> None \<or> \<not> found then Email identity else v)"
  by (auto simp: extractIdentity_def Let_def split: sum.splits prod.splits if_splits)

lemma extractIdentity_name:
  assumes "extractIdentity ext tok = Inr u"
  shows "name u = (case map_of (claims u) claimPreferredName of
                     Some (CString v) \<Rightarrow> v | _ \<Rightarrow> email u)
       \<and> map_of (claims u) ''sub'' = Some (CString (id' u))"
proof -
  from extractIdentity_fields [OF assms] obtain c identity where
    i: "IdentityFromClaims c = Inr identity" and c: "claims u = c"
    and f: "id' u = ID identity" "email u = Email identity"
    and n: "name u = (case StringClaim c claimPreferredName of
              (v, found, err) \<Rightarrow> if err \<noteq> None \<or> \<not> found then Email identity else v)"
    by blast
  from n have "name u = (case map_of c claimPreferredName of
                     Some (CString v) \<Rightarrow> v | _ \<Rightarrow> Email identity)"
    by (simp only: preferred_name_fallback)
  with IdentityFromClaims_sub [OF i] c f show ?thesis
    by (simp split: option.splits claim.splits)
qed

text \<open>
  C9, as stated, fails: a token without \<^verbatim>\<open>aud\<close> and without \<^verbatim>\<open>sub\<close> does not fail with
  \<^verbatim>\<open>ErrNoTokenAudience\<close> but with the error of the missing \<^verbatim>\<open>sub\<close>, and a token that has
  \<^verbatim>\<open>aud\<close> but no \<^verbatim>\<open>sub\<close> fails too: \<^verbatim>\<open>aud\<close> is not the only claim whose absence aborts the
  extraction.
\<close>

theorem only_audience_counterexample:
  "map_of [(''email'', CString ''gambol99@gmail.com'')] claimAudience = None
   \<and> extractIdentity fakeExternals (fakeToken [(''email'', CString ''gambol99@gmail.com'')])
       = Inl (ErrOther ''missing required claim: sub'')
   \<and> map_of [(''aud'', CString ''test'')] claimAudience = Some (CString ''test'')
   \<and> map_of [(''aud'', CString ''test'')] ''sub'' = None
   \<and> extractIdentity fakeExternals (fakeToken [(''aud'', CString ''test'')])
       = Inl (ErrOther ''missing required claim: sub'')"
  by code_simp

text \<open>
  C9, amended. For a token whose claims decode: extraction fails with
  \<^verbatim>\<open>ErrNoTokenAudience\<close> exactly when \<^verbatim>\<open>IdentityFromClaims\<close> accepts the claims and the \<^verbatim>\<open>aud\<close>
  claim is absent or not a string; a token without the \<^verbatim>\<open>sub\<close> claim fails before, with
  the error of \<^verbatim>\<open>IdentityFromClaims\<close>; the name of an extracted user is the
  \<^verbatim>\<open>preferred_username\<close> claim when that is a string and the email otherwise; and taking
  the \<^verbatim>\<open>preferred_username\<close> claim away from the token never changes whether extraction
  fails.
\<close>

theorem no_audience_after_identity:
  assumes "TokenClaims tok = Inr c"
  shows "(extractIdentity ext tok = Inl ErrNoTokenAudience)
           = ((\<exists>identity. IdentityFromClaims c = Inr identity)
              \<and> (\<forall>v. map_of c claimAudience \<noteq> Some (CString v)))
       \<and> (map_of c ''sub'' = None \<longrightarrow>
            extractIdentity ext tok = Inl (ErrOther ''missing required claim: sub''))
       \<and> (\<forall>u. extractIdentity ext tok = Inr u \<longrightarrow>
            name u = (case map_of c claimPreferredName of
                        Some (CString v) \<Rightarrow> v | _ \<Rightarrow> email u))
       \<and> isl (extractIdentity ext (JWT (Encode tok)
                 (Some (filter (\<lambda>(k, v). k \<noteq> claimPreferredName) c))))
           = isl (extractIdentity ext tok)"
proof (intro conjI allI impI)
  show "(extractIdentity ext tok = Inl ErrNoTokenAudience)
           = ((\<exists>identity. IdentityFromClaims c = Inr identity)
              \<and> (\<forall>v. map_of c claimAudience \<noteq> Some (CString v)))"
  proof (cases "IdentityFromClaims c")
    case (Inl e)
    then show ?thesis
      using assms IdentityFromClaims_error [OF Inl]
      by (auto simp: extractIdentity_def)
  next
    case (Inr identity)
    show ?thesis
      using assms Inr StringClaim_ok [of c claimAudience]
      by (auto simp: extractIdentity_def Let_def
               split: prod.splits sum.splits
               dest: realmRoles_error resourceRoles_error)
  qed
next
  assume "map_of c ''sub'' = None"
  then show "extractIdentity ext tok = Inl (ErrOther ''missing required claim: sub'')"
    using assms by (simp add: extractIdentity_def IdentityFromClaims_def StringClaim_def)
next
  fix u
  assume u: "extractIdentity ext tok = Inr u"
  from extractIdentity_fields [OF u] assms have "claims u = c" by auto
  with extractIdentity_name [OF u]
  show "name u = (case map_of c claimPreferredName of
                        Some (CString v) \<Rightarrow> v | _ \<Rightarrow> email u)"
    by simp
next
  show "isl (extractIdentity ext (JWT (Encode tok)
                 (Some (filter (\<lambda>(k, v). k \<noteq> claimPreferredName) c))))
           = isl (extractIdentity ext tok)"
    using assms
    by (auto simp: extractIdentity_def TokenClaims_def Let_def IdentityFromClaims_filter
                   realmRoles_filter resourceRoles_filter audience_filter
             split: prod.splits sum.splits option.splits)
qed

theorem no_audience_after_identity_witness:
  "TokenClaims (fakeToken [(''sub'', CString ''1e11e539''), (''email'', CString ''gambol99@gmail.com'')])
     = Inr [(''sub'', CString ''1e11e539''), (''email'', CString ''gambol99@gmail.com'')]
   \<and> extractIdentity fakeExternals
        (fakeToken [(''sub'', CString ''1e11e539''), (''email'', CString ''gambol99@gmail.com'')])
      = Inl ErrNoTokenAudience"
  using no_audience_after_identity
    [of "fakeToken [(''sub'', CString ''1e11e539''), (''email'', CString ''gambol99@gmail.com'')]"
        "[(''sub'', CString ''1e11e539''), (''email'', CString ''gambol99@gmail.com'')]"
        fakeExternals]
  by (simp add: TokenClaims_def fakeToken_def IdentityFromClaims_def StringClaim_def
        TimeClaim_def claimAudience_def)

subsection \<open>The user id header\<close>

lemma addCustomClaims_pointwise:
  "h k = g k \<Longrightarrow> addCustomClaims ext cs ident h k = addCustomClaims ext cs ident g k"
  unfolding addCustomClaims_def
proof (induction cs arbitrary: h g)
  case Nil
  then show ?case by simp
next
  case (Cons a cs)
  obtain c hdr where a: "a = (c, hdr)" by (cases a)
  show ?case
  proof (cases "map_of (claims ident) c")
    case None
    then show ?thesis using Cons.IH [of h g] Cons.prems by (simp add: a)
  next
    case (Some cl)
    have "HeaderAdd h hdr (SprintV ext cl) k = HeaderAdd g hdr (SprintV ext cl) k"
      using Cons.prems by (simp add: HeaderAdd_apply)
    from Cons.IH [of "HeaderAdd h hdr (SprintV ext cl)" "HeaderAdd g hdr (SprintV ext cl)"]
      this Some
    show ?thesis by (simp add: a)
  qed
qed

lemma addCustomClaims_subject:
  "addCustomClaims ext cs (ident\<lparr>id' := x\<rparr>) h = addCustomClaims ext cs ident h"
  by (simp add: addCustomClaims_def)

lemma subject_only_in_subject_header:
  assumes "k \<noteq> ''X-Auth-Subject''"
  shows "ReqHeader (upstreamHeadersHandler cfg ext custom
                      (cx\<lparr>userCtx := Some (ident\<lparr>id' := x\<rparr>)\<rparr>) req) k
       = ReqHeader (upstreamHeadersHandler cfg ext custom (cx\<lparr>userCtx := Some ident\<rparr>) req) k"
proof -
  have "addIdentityHeaders ext cs (ident\<lparr>id' := x\<rparr>) h k = addIdentityHeaders ext cs ident h k"
    for cs h
    unfolding addIdentityHeaders_def Let_def addCustomClaims_subject
    by (rule addCustomClaims_pointwise)
       (use assms in \<open>simp add: HeaderAdd_apply HeaderSet_apply canonical_names\<close>)
  then show ?thesis
    by (simp add: upstreamHeadersHandler_def Let_def HeaderAdd_apply HeaderSet_apply)
qed












end
